theory Spec2Isabelle
  imports Main "HOL-Library.Word"
begin

section \<open>Array.h: the dimension utility\<close>

text \<open>
  \<^verbatim>\<open>size_t\<close> is the 64-bit unsigned integer of an LP64 target; its multiplication wraps
  around.  \<^verbatim>\<open>ArrayBase::Dims\<close> is \<^verbatim>\<open>std::vector<size_t>\<close>.  The parameter the source calls
  \<^verbatim>\<open>size\<close> is written \<open>sz\<close> throughout.
\<close>

type_synonym size_t = "64 word"

type_synonym Dims = "size_t list"

text \<open>
  \<^verbatim>\<open>ArrayBase::calculateSize\<close>: the accumulator starts at 1 and is multiplied by every
  entry, front to back.
\<close>

fun calculateSize_loop :: "size_t \<Rightarrow> Dims \<Rightarrow> size_t" where
  "calculateSize_loop sz [] = sz"
| "calculateSize_loop sz (d # it) = calculateSize_loop (sz * d) it"

definition calculateSize :: "Dims \<Rightarrow> size_t" where
  "calculateSize dims = calculateSize_loop 1 dims"

section \<open>Memory\<close>

text \<open>
  Every pointer the policies handle is null or the start of an array obtained from
  \<^verbatim>\<open>new[]\<close>.  A heap of element type \<open>'a\<close> is the list of all arrays ever allocated, the
  address of an array being its position: \<open>None\<close> is an array that has been deleted,
  \<open>Some b\<close> a live one.  The cells of a live array are \<open>None\<close> while indeterminate (fresh
  from \<^verbatim>\<open>new[]\<close>) and \<open>Some v\<close> once written.  The supply of addresses is unbounded, so
  \<^verbatim>\<open>new[]\<close> does not throw.  Whatever C++ leaves undefined is a \<open>fault\<close>.
\<close>

datatype ptr = Null | Addr nat

datatype fault =
    NullDeref
  | Dangling
  | ReadPastBound
  | WritePastBound
  | Indeterminate
  | InvalidFree

type_synonym 'a block = "'a option list"

type_synonym 'a heap = "'a block option list"

definition new_array :: "nat \<Rightarrow> 'a heap \<Rightarrow> ptr \<times> 'a heap" where
  "new_array n h = (Addr (length h), h @ [Some (replicate n None)])"

definition load :: "'a heap \<Rightarrow> ptr \<Rightarrow> fault + 'a block" where
  "load h p =
     (case p of
        Null \<Rightarrow> Inl NullDeref
      | Addr a \<Rightarrow>
          if a < length h
          then (case h ! a of None \<Rightarrow> Inl Dangling | Some b \<Rightarrow> Inr b)
          else Inl Dangling)"

definition store :: "ptr \<Rightarrow> 'a block \<Rightarrow> 'a heap \<Rightarrow> 'a heap" where
  "store p b h = (case p of Null \<Rightarrow> h | Addr a \<Rightarrow> h[a := Some b])"

text \<open>\<^verbatim>\<open>delete [] p\<close>: nothing for the null pointer, undefined for an array that is not live.\<close>

definition delete_array :: "ptr \<Rightarrow> 'a heap \<Rightarrow> fault + 'a heap" where
  "delete_array p h =
     (case p of
        Null \<Rightarrow> Inr h
      | Addr a \<Rightarrow>
          (case load h p of
             Inl e \<Rightarrow> Inl InvalidFree
           | Inr b \<Rightarrow> Inr (h[a := None])))"

text \<open>Reading \<^verbatim>\<open>p[i]\<close> and writing \<^verbatim>\<open>p[i] = v\<close>.\<close>

definition index :: "'a heap \<Rightarrow> ptr \<Rightarrow> nat \<Rightarrow> fault + 'a" where
  "index h p i =
     (case load h p of
        Inl e \<Rightarrow> Inl e
      | Inr b \<Rightarrow>
          if i < length b
          then (case b ! i of None \<Rightarrow> Inl Indeterminate | Some v \<Rightarrow> Inr v)
          else Inl ReadPastBound)"

definition assign :: "ptr \<Rightarrow> nat \<Rightarrow> 'a \<Rightarrow> 'a heap \<Rightarrow> fault + 'a heap" where
  "assign p i v h =
     (case load h p of
        Inl e \<Rightarrow> Inl e
      | Inr b \<Rightarrow>
          if i < length b then Inr (store p (b[i := Some v]) h) else Inl WritePastBound)"

text \<open>
  \<^verbatim>\<open>memcpy(dst, src, n * sizeof(T))\<close>, counted in elements.  It moves the first \<open>n\<close>
  cells as they are, indeterminate ones included; with \<open>n = 0\<close> it touches neither
  array.
\<close>

definition memcpy :: "ptr \<Rightarrow> ptr \<Rightarrow> nat \<Rightarrow> 'a heap \<Rightarrow> fault + 'a heap" where
  "memcpy dst src n h =
     (if n = 0 then Inr h
      else
        (case load h src of
           Inl e \<Rightarrow> Inl e
         | Inr sb \<Rightarrow>
             if length sb < n then Inl ReadPastBound
             else
               (case load h dst of
                  Inl e \<Rightarrow> Inl e
                | Inr db \<Rightarrow>
                    if length db < n then Inl WritePastBound
                    else Inr (store dst (take n sb @ drop n db) h))))"

text \<open>
  \<^verbatim>\<open>strlen\<close> walks the array up to the first zero character.  An array in memory is
  shorter than the address space, so the length is kept as a natural number.
\<close>

fun strlen_block :: "char block \<Rightarrow> fault + nat" where
  "strlen_block [] = Inl ReadPastBound"
| "strlen_block (None # cs) = Inl Indeterminate"
| "strlen_block (Some c # cs) =
     (if c = CHR 0x00 then Inr 0
      else (case strlen_block cs of Inl e \<Rightarrow> Inl e | Inr n \<Rightarrow> Inr (Suc n)))"

definition strlen :: "char heap \<Rightarrow> ptr \<Rightarrow> fault + nat" where
  "strlen h p = (case load h p of Inl e \<Rightarrow> Inl e | Inr b \<Rightarrow> strlen_block b)"

text \<open>\<^verbatim>\<open>strcpy(dst, src)\<close> moves the characters of \<open>src\<close> and its terminator.\<close>

definition strcpy :: "ptr \<Rightarrow> ptr \<Rightarrow> char heap \<Rightarrow> fault + char heap" where
  "strcpy dst src h =
     (case load h src of
        Inl e \<Rightarrow> Inl e
      | Inr sb \<Rightarrow>
          (case strlen_block sb of
             Inl e \<Rightarrow> Inl e
           | Inr n \<Rightarrow>
               (case load h dst of
                  Inl e \<Rightarrow> Inl e
                | Inr db \<Rightarrow>
                    if length db < n + 1 then Inl WritePastBound
                    else Inr (store dst (take (n + 1) sb @ drop (n + 1) db) h))))"

text \<open>
  An array of strings lives in two heaps: the arrays of \<^verbatim>\<open>char\<close> and the arrays of
  \<^verbatim>\<open>char *\<close> whose cells point into the first.
\<close>

record store2 =
  chars :: "char heap"
  handles :: "ptr heap"

section \<open>Array.h: the storage policies\<close>

subsection \<open>\<^verbatim>\<open>CopyPolicy<T>\<close>\<close>

definition CopyPolicy_copy :: "ptr \<Rightarrow> size_t \<Rightarrow> 'a heap \<Rightarrow> fault + (ptr \<times> 'a heap)" where
  "CopyPolicy_copy p sz h =
     (case new_array (unat sz) h of
        (copy, h1) \<Rightarrow>
          (case memcpy copy p (unat sz) h1 of
             Inl e \<Rightarrow> Inl e
           | Inr h2 \<Rightarrow> Inr (copy, h2)))"

definition CopyPolicy_destroy :: "ptr \<Rightarrow> size_t \<Rightarrow> 'a heap \<Rightarrow> fault + 'a heap" where
  "CopyPolicy_destroy p sz h = (if Null \<noteq> p then delete_array p h else Inr h)"

subsection \<open>\<^verbatim>\<open>CopyPolicy<char>\<close>\<close>

definition CopyPolicy_char_copy ::
  "ptr \<Rightarrow> size_t \<Rightarrow> char heap \<Rightarrow> fault + (ptr \<times> char heap)" where
  "CopyPolicy_char_copy p sz h =
     (case new_array (unat (sz + 1)) h of
        (copy, h1) \<Rightarrow>
          (case strcpy copy p h1 of
             Inl e \<Rightarrow> Inl e
           | Inr h2 \<Rightarrow> Inr (copy, h2)))"

definition CopyPolicy_char_destroy :: "ptr \<Rightarrow> size_t \<Rightarrow> char heap \<Rightarrow> fault + char heap" where
  "CopyPolicy_char_destroy p sz h = (if Null \<noteq> p then delete_array p h else Inr h)"

subsection \<open>\<^verbatim>\<open>CopyPolicy<char *>\<close>\<close>

text \<open>
  One round of the copying loop: \<^verbatim>\<open>copy[i] = new char[strlen(ptr[i]) + 1]\<close>, then
  \<^verbatim>\<open>strcpy(copy[i], ptr[i])\<close>.
\<close>

definition copy_string :: "ptr \<Rightarrow> ptr \<Rightarrow> nat \<Rightarrow> store2 \<Rightarrow> fault + store2" where
  "copy_string copy p i s =
     (case index (handles s) p i of
        Inl e \<Rightarrow> Inl e
      | Inr q \<Rightarrow>
          (case strlen (chars s) q of
             Inl e \<Rightarrow> Inl e
           | Inr n \<Rightarrow>
               (case new_array (n + 1) (chars s) of
                  (c, ch1) \<Rightarrow>
                    (case assign copy i c (handles s) of
                       Inl e \<Rightarrow> Inl e
                     | Inr hs1 \<Rightarrow>
                         (case index hs1 copy i of
                            Inl e \<Rightarrow> Inl e
                          | Inr c' \<Rightarrow>
                              (case index hs1 p i of
                                 Inl e \<Rightarrow> Inl e
                               | Inr q' \<Rightarrow>
                                   (case strcpy c' q' ch1 of
                                      Inl e \<Rightarrow> Inl e
                                    | Inr ch2 \<Rightarrow>
                                        Inr \<lparr>chars = ch2, handles = hs1\<rparr>)))))))"

function copy_strings :: "ptr \<Rightarrow> ptr \<Rightarrow> nat \<Rightarrow> nat \<Rightarrow> store2 \<Rightarrow> fault + store2" where
  "copy_strings copy p sz i s =
     (if i < sz
      then (case copy_string copy p i s of
              Inl e \<Rightarrow> Inl e
            | Inr s' \<Rightarrow> copy_strings copy p sz (Suc i) s')
      else Inr s)"
  by pat_completeness auto
termination
  by (relation "measure (\<lambda>(copy, p, sz, i, s). sz - i)") auto

definition CopyPolicy_strs_copy :: "ptr \<Rightarrow> size_t \<Rightarrow> store2 \<Rightarrow> fault + (ptr \<times> store2)" where
  "CopyPolicy_strs_copy p sz s =
     (case new_array (unat sz) (handles s) of
        (copy, hs1) \<Rightarrow>
          (case copy_strings copy p (unat sz) 0 (s\<lparr>handles := hs1\<rparr>) of
             Inl e \<Rightarrow> Inl e
           | Inr s' \<Rightarrow> Inr (copy, s')))"

text \<open>The loop of the destructor: \<^verbatim>\<open>delete[] ptr[i]\<close> for every \<open>i\<close> below the count.\<close>

function delete_strings :: "ptr \<Rightarrow> nat \<Rightarrow> nat \<Rightarrow> store2 \<Rightarrow> fault + store2" where
  "delete_strings p sz i s =
     (if i < sz
      then (case index (handles s) p i of
              Inl e \<Rightarrow> Inl e
            | Inr q \<Rightarrow>
                (case delete_array q (chars s) of
                   Inl e \<Rightarrow> Inl e
                 | Inr ch1 \<Rightarrow> delete_strings p sz (Suc i) (s\<lparr>chars := ch1\<rparr>)))
      else Inr s)"
  by pat_completeness auto
termination
  by (relation "measure (\<lambda>(p, sz, i, s). sz - i)") auto

definition CopyPolicy_strs_destroy :: "ptr \<Rightarrow> size_t \<Rightarrow> store2 \<Rightarrow> fault + store2" where
  "CopyPolicy_strs_destroy p sz s =
     (if Null \<noteq> p
      then (case delete_strings p (unat sz) 0 s of
              Inl e \<Rightarrow> Inl e
            | Inr s1 \<Rightarrow>
                (case delete_array p (handles s1) of
                   Inl e \<Rightarrow> Inl e
                 | Inr hs1 \<Rightarrow> Inr (s1\<lparr>handles := hs1\<rparr>)))
      else Inr s)"

subsection \<open>\<^verbatim>\<open>MovePolicy\<close> and its two specialisations\<close>

definition MovePolicy_copy :: "ptr \<Rightarrow> size_t \<Rightarrow> 'a heap \<Rightarrow> fault + (ptr \<times> 'a heap)" where
  "MovePolicy_copy p sz h = Inr (p, h)"

definition MovePolicy_destroy :: "ptr \<Rightarrow> size_t \<Rightarrow> 'a heap \<Rightarrow> fault + 'a heap" where
  "MovePolicy_destroy p sz h = (if Null \<noteq> p then delete_array p h else Inr h)"

definition MovePolicy_char_copy ::
  "ptr \<Rightarrow> size_t \<Rightarrow> char heap \<Rightarrow> fault + (ptr \<times> char heap)" where
  "MovePolicy_char_copy p sz h = Inr (p, h)"

definition MovePolicy_char_destroy :: "ptr \<Rightarrow> size_t \<Rightarrow> char heap \<Rightarrow> fault + char heap" where
  "MovePolicy_char_destroy p sz h = (if Null \<noteq> p then delete_array p h else Inr h)"

definition MovePolicy_strs_copy :: "ptr \<Rightarrow> size_t \<Rightarrow> store2 \<Rightarrow> fault + (ptr \<times> store2)" where
  "MovePolicy_strs_copy p sz s = Inr (p, s)"

definition MovePolicy_strs_destroy :: "ptr \<Rightarrow> size_t \<Rightarrow> store2 \<Rightarrow> fault + store2" where
  "MovePolicy_strs_destroy p sz s =
     (if Null \<noteq> p
      then (case delete_strings p (unat sz) 0 s of
              Inl e \<Rightarrow> Inl e
            | Inr s1 \<Rightarrow>
                (case delete_array p (handles s1) of
                   Inl e \<Rightarrow> Inl e
                 | Inr hs1 \<Rightarrow> Inr (s1\<lparr>handles := hs1\<rparr>)))
      else Inr s)"

subsection \<open>\<^verbatim>\<open>MoveStringPolicy\<close>\<close>

definition MoveStringPolicy_copy :: "ptr \<Rightarrow> size_t \<Rightarrow> 'a heap \<Rightarrow> fault + (ptr \<times> 'a heap)" where
  "MoveStringPolicy_copy p sz h = Inr (p, h)"

definition MoveStringPolicy_destroy :: "ptr \<Rightarrow> size_t \<Rightarrow> 'a heap \<Rightarrow> fault + 'a heap" where
  "MoveStringPolicy_destroy p sz h = (if Null \<noteq> p then delete_array p h else Inr h)"

subsection \<open>\<^verbatim>\<open>ShallowCopyPolicy\<close>\<close>

text \<open>The policy touches no memory, so its state \<open>'s\<close> is any of the heaps above.\<close>

definition ShallowCopyPolicy_copy :: "ptr \<Rightarrow> size_t \<Rightarrow> 's \<Rightarrow> fault + (ptr \<times> 's)" where
  "ShallowCopyPolicy_copy p sz s = Inr (p, s)"

definition ShallowCopyPolicy_destroy :: "ptr \<Rightarrow> size_t \<Rightarrow> 's \<Rightarrow> fault + 's" where
  "ShallowCopyPolicy_destroy p sz s = Inr s"

section \<open>Array.h: \<^verbatim>\<open>Array<T>\<close> and \<^verbatim>\<open>ArrayImpl<T, StoragePolicy>\<close>\<close>

text \<open>
  The template parameter \<^verbatim>\<open>StoragePolicy\<close> is a pair of static functions over the memory
  \<open>'s\<close> they work on.
\<close>

record 's StoragePolicy =
  copy :: "ptr \<Rightarrow> size_t \<Rightarrow> 's \<Rightarrow> fault + (ptr \<times> 's)"
  destroy :: "ptr \<Rightarrow> size_t \<Rightarrow> 's \<Rightarrow> fault + 's"

definition CopyPolicy :: "'a heap StoragePolicy" where
  "CopyPolicy = \<lparr>copy = CopyPolicy_copy, destroy = CopyPolicy_destroy\<rparr>"


definition CopyPolicy_strs :: "store2 StoragePolicy" where
  "CopyPolicy_strs = \<lparr>copy = CopyPolicy_strs_copy, destroy = CopyPolicy_strs_destroy\<rparr>"

definition MovePolicy :: "'a heap StoragePolicy" where
  "MovePolicy = \<lparr>copy = MovePolicy_copy, destroy = MovePolicy_destroy\<rparr>"

definition MovePolicy_char :: "char heap StoragePolicy" where
  "MovePolicy_char = \<lparr>copy = MovePolicy_char_copy, destroy = MovePolicy_char_destroy\<rparr>"

definition MovePolicy_strs :: "store2 StoragePolicy" where
  "MovePolicy_strs = \<lparr>copy = MovePolicy_strs_copy, destroy = MovePolicy_strs_destroy\<rparr>"

definition MoveStringPolicy :: "'a heap StoragePolicy" where
  "MoveStringPolicy = \<lparr>copy = MoveStringPolicy_copy, destroy = MoveStringPolicy_destroy\<rparr>"

definition ShallowCopyPolicy :: "'s StoragePolicy" where
  "ShallowCopyPolicy = \<lparr>copy = ShallowCopyPolicy_copy, destroy = ShallowCopyPolicy_destroy\<rparr>"

text \<open>
  The members \<^verbatim>\<open>ptr_\<close>, \<^verbatim>\<open>dims_\<close> and \<^verbatim>\<open>size_\<close> of \<^verbatim>\<open>Array<T>\<close> are the fields \<open>ptr'\<close>,
  \<open>dims'\<close> and \<open>size'\<close>.  The constructor of \<^verbatim>\<open>Array<T>\<close> is protected: an array is built
  by \<^verbatim>\<open>ArrayImpl\<close> only.
\<close>

record Array =
  ptr' :: ptr
  dims' :: Dims
  size' :: size_t

definition Array_ctor :: "ptr \<Rightarrow> Dims \<Rightarrow> Array" where
  "Array_ctor p dims = \<lparr>ptr' = p, dims' = dims, size' = calculateSize dims\<rparr>"

definition getArray :: "Array \<Rightarrow> ptr \<times> Dims" where
  "getArray a = (ptr' a, dims' a)"

definition getSize :: "Array \<Rightarrow> size_t" where
  "getSize a = size' a"

text \<open>
  \<^verbatim>\<open>Array<T>::operator==\<close>.  The parameter \<open>ne\<close> is \<^verbatim>\<open>operator!=\<close> of the element type.
\<close>

function equals_loop ::
  "('a \<Rightarrow> 'a \<Rightarrow> bool) \<Rightarrow> 'a heap \<Rightarrow> ptr \<Rightarrow> ptr \<Rightarrow> nat \<Rightarrow> nat \<Rightarrow> fault + bool" where
  "equals_loop ne h p q sz i =
     (if i < sz
      then (case index h p i of
              Inl e \<Rightarrow> Inl e
            | Inr x \<Rightarrow>
                (case index h q i of
                   Inl e \<Rightarrow> Inl e
                 | Inr y \<Rightarrow>
                     if ne x y then Inr False else equals_loop ne h p q sz (Suc i)))
      else Inr True)"
  by pat_completeness auto
termination
  by (relation "measure (\<lambda>(ne, h, p, q, sz, i). sz - i)") auto

definition Array_equals :: "('a \<Rightarrow> 'a \<Rightarrow> bool) \<Rightarrow> Array \<Rightarrow> Array \<Rightarrow> 'a heap \<Rightarrow> fault + bool" where
  "Array_equals ne this other h =
     (if dims' this \<noteq> dims' other then Inr False
      else equals_loop ne h (ptr' this) (ptr' other) (unat (size' this)) 0)"

definition ArrayImpl_ctor ::
  "'s StoragePolicy \<Rightarrow> ptr \<Rightarrow> Dims \<Rightarrow> 's \<Rightarrow> fault + (Array \<times> 's)" where
  "ArrayImpl_ctor pol p dims s =
     (case copy pol p (calculateSize dims) s of
        Inl e \<Rightarrow> Inl e
      | Inr (q, s') \<Rightarrow> Inr (Array_ctor q dims, s'))"

definition ArrayImpl_dtor :: "'s StoragePolicy \<Rightarrow> Array \<Rightarrow> 's \<Rightarrow> fault + 's" where
  "ArrayImpl_dtor pol a s = destroy pol (ptr' a) (size' a) s"

text \<open>
  A recording policy.  \<^verbatim>\<open>StoragePolicy\<close> is a template parameter, so any pair of static
  functions \<^verbatim>\<open>copy\<close> and \<^verbatim>\<open>destroy\<close> instantiates \<^verbatim>\<open>ArrayImpl\<close>; this one forwards to a
  given policy and notes every call it receives, with its arguments and the handle
  returned.
\<close>

datatype call = Copy_called ptr size_t ptr | Destroy_called ptr size_t

definition Recording :: "'s StoragePolicy \<Rightarrow> ('s \<times> call list) StoragePolicy" where
  "Recording pol =
     \<lparr>copy = (\<lambda>p sz (s, log).
         case copy pol p sz s of
           Inl e \<Rightarrow> Inl e
         | Inr (q, s') \<Rightarrow> Inr (q, (s', log @ [Copy_called p sz q]))),
      destroy = (\<lambda>p sz (s, log).
         case destroy pol p sz s of
           Inl e \<Rightarrow> Inl e
         | Inr s' \<Rightarrow> Inr (s', log @ [Destroy_called p sz]))\<rparr>"

text \<open>
  What a reader of a string sees through a handle: the characters up to the first zero
  character, and that terminator.
\<close>

definition c_str :: "char heap \<Rightarrow> ptr \<Rightarrow> fault + string" where
  "c_str h p =
     (case load h p of
        Inl e \<Rightarrow> Inl e
      | Inr b \<Rightarrow>
          (case strlen_block b of
             Inl e \<Rightarrow> Inl e
           | Inr n \<Rightarrow> Inr (map the (take (n + 1) b))))"

section \<open>PublicKey\<close>

text \<open>
  \<^verbatim>\<open>std::vector<signed char>\<close> is a list of bytes.  \<^verbatim>\<open>RSA_verify\<close> belongs to OpenSSL: it
  is a parameter, a function of the arguments it is called with (the digest and its
  length, the signature buffer and the length passed for it, the key), and the list of
  the calls made to it is threaded through as state.
\<close>

type_synonym schar = "8 word"

type_synonym 'k rsa_call = "schar list \<times> nat \<times> schar list \<times> nat \<times> 'k"

text \<open>
  Modelled from the spec: the constant \<^verbatim>\<open>SIGNATURE_SIZE\<close> is declared in a header that is
  not among the sources; the comment at its use, "Signature must be exactly 64 bytes
  long", gives its value.
\<close>

definition SIGNATURE_SIZE :: nat where
  "SIGNATURE_SIZE = 64"

definition PublicKeyImpl_verifySignature ::
  "('k rsa_call \<Rightarrow> int) \<Rightarrow> 'k \<Rightarrow> schar list \<Rightarrow> schar list \<Rightarrow> 'k rsa_call list
     \<Rightarrow> bool \<times> 'k rsa_call list" where
  "PublicKeyImpl_verifySignature RSA_verify publicKey messageDigest originalSignature calls =
     (let c = (messageDigest, length messageDigest, originalSignature, SIGNATURE_SIZE, publicKey);
          res = RSA_verify c
      in (res = 1, calls @ [c]))"

text \<open>
  The member \<^verbatim>\<open>impl_\<close>, the field \<open>impl'\<close>, is a \<^verbatim>\<open>unique_ptr\<close>: \<open>None\<close> when it holds no
  object, otherwise the key the \<^verbatim>\<open>PublicKeyImpl\<close> object keeps.
\<close>

record 'k PublicKey =
  impl' :: "'k option"

definition PublicKey_verifySignature ::
  "('k rsa_call \<Rightarrow> int) \<Rightarrow> 'k PublicKey \<Rightarrow> schar list \<Rightarrow> schar list \<Rightarrow> 'k rsa_call list
     \<Rightarrow> bool \<times> 'k rsa_call list" where
  "PublicKey_verifySignature RSA_verify this messageDigest originalSignature calls =
     (if messageDigest = [] \<or> originalSignature = [] then (False, calls)
      else if length originalSignature \<noteq> SIGNATURE_SIZE then (False, calls)
      else
        (case impl' this of
           None \<Rightarrow> (False, calls)
         | Some impl \<Rightarrow>
             PublicKeyImpl_verifySignature RSA_verify impl messageDigest originalSignature calls))"

text \<open>The loops are unfolded one round at a time, on request.\<close>

declare copy_strings.simps [simp del]

declare delete_strings.simps [simp del]

declare equals_loop.simps [simp del]

section \<open>The dimension utility\<close>

lemma calculateSize_loop_prod: "calculateSize_loop sz d = sz * prod_list d"
  by (induction d arbitrary: sz) (simp_all add: mult.assoc)

lemma unat_prod_list: "unat (prod_list (d :: size_t list)) = prod_list (map unat d) mod 2 ^ 64"
  by (induction d) (simp_all add: unat_word_ariths mod_mult_right_eq)

lemma prod_list_zero_word: "(0 :: size_t) \<in> set d \<Longrightarrow> prod_list d = 0"
  by (induction d) auto

text \<open>
  C1, as stated, at the dimensions \<open>[2\<^sup>3\<^sup>2, 2\<^sup>3\<^sup>2]\<close>: the product of the entries is
  \<open>2\<^sup>6\<^sup>4\<close>, and \<^verbatim>\<open>calculateSize\<close> returns 0.
\<close>

theorem calculateSize_overflow_counterexample:
  "unat (calculateSize [2 ^ 32, 2 ^ 32]) \<noteq> prod_list (map unat [2 ^ 32, 2 ^ 32 :: size_t])"
  by (simp add: calculateSize_def)

text \<open>
  C1, amended: \<^verbatim>\<open>calculateSize\<close> returns the product of the entries reduced modulo
  \<open>2\<^sup>6\<^sup>4\<close>, which is the product itself whenever that is below \<open>2\<^sup>6\<^sup>4\<close>; the empty vector
  gives 1 and a vector with a zero entry gives 0.
\<close>

theorem calculateSize_product_mod:
  "unat (calculateSize d) = prod_list (map unat d) mod 2 ^ 64
   \<and> calculateSize [] = 1
   \<and> (0 \<in> set d \<longrightarrow> calculateSize d = 0)
   \<and> (prod_list (map unat d) < 2 ^ 64 \<longrightarrow> unat (calculateSize d) = prod_list (map unat d))"
  by (simp add: calculateSize_def calculateSize_loop_prod unat_prod_list prod_list_zero_word)

theorem calculateSize_product_mod_witness:
  "(0 :: size_t) \<in> set [2, 0, 5]
   \<and> prod_list (map unat [2, 3 :: size_t]) < 2 ^ 64
   \<and> calculateSize [2, 0, 5] = 0
   \<and> unat (calculateSize [2, 3]) = 6"
  using calculateSize_product_mod [of "[2, 0, 5]"] calculateSize_product_mod [of "[2, 3]"]
  by simp

section \<open>Facts about the memory\<close>

lemma load_Inr_iff:
  "load h p = Inr b \<longleftrightarrow> (\<exists>a. p = Addr a \<and> a < length h \<and> h ! a = Some b)"
  by (auto simp: load_def split: ptr.splits option.splits)

lemma load_fresh: "load (h @ [Some b]) (Addr (length h)) = Inr b"
  by (simp add: load_def)

lemma load_old: "load h p = Inr b \<Longrightarrow> load (h @ bs) p = Inr b"
  by (auto simp: load_Inr_iff nth_append)

section \<open>The deep-copy policy\<close>





section \<open>The transfer and alias policies\<close>

text \<open>
  C3.  \<^verbatim>\<open>MovePolicy<T>::copy\<close> and its two specialisations return the handle they are
  given and leave the memory alone, whatever the handle and the count; an array
  constructed with any of them stores the source handle, and \<^verbatim>\<open>getArray\<close> returns it.
\<close>

theorem transfer_keeps_handle:
  "MovePolicy_copy p sz h = Inr (p, h)
   \<and> MovePolicy_char_copy p sz hc = Inr (p, hc)
   \<and> MovePolicy_strs_copy p sz s = Inr (p, s)
   \<and> ArrayImpl_ctor MovePolicy p d h = Inr (\<lparr>ptr' = p, dims' = d, size' = calculateSize d\<rparr>, h)
   \<and> ArrayImpl_ctor MovePolicy_char p d hc
       = Inr (\<lparr>ptr' = p, dims' = d, size' = calculateSize d\<rparr>, hc)
   \<and> ArrayImpl_ctor MovePolicy_strs p d s
       = Inr (\<lparr>ptr' = p, dims' = d, size' = calculateSize d\<rparr>, s)
   \<and> fst (getArray \<lparr>ptr' = p, dims' = d, size' = calculateSize d\<rparr>) = p"
  by (simp add: MovePolicy_copy_def MovePolicy_char_copy_def MovePolicy_strs_copy_def
      ArrayImpl_ctor_def MovePolicy_def MovePolicy_char_def MovePolicy_strs_def
      Array_ctor_def getArray_def)

theorem transfer_keeps_handle_witness:
  "ArrayImpl_ctor MovePolicy (Addr 0) [3] [Some [Some (1 :: int), Some 2, Some 3]]
     = Inr (\<lparr>ptr' = Addr 0, dims' = [3], size' = 3\<rparr>, [Some [Some 1, Some 2, Some 3]])"
  using transfer_keeps_handle [of "Addr 0" _ "[Some [Some (1 :: int), Some 2, Some 3]]" _ _ "[3]"]
  by (simp add: calculateSize_def)

text \<open>
  C4.  \<^verbatim>\<open>ShallowCopyPolicy<T>::destroy\<close> returns the memory it is given, for every handle
  and count.  An array constructed with the policy stores the source handle without
  touching the memory, and destroying it leaves the memory as it is: every array in it,
  the source included, is as live as before and holds what it held.
\<close>

theorem alias_destroy_noop:
  "ShallowCopyPolicy_destroy p sz s = Inr s
   \<and> ArrayImpl_ctor ShallowCopyPolicy p d s
       = Inr (\<lparr>ptr' = p, dims' = d, size' = calculateSize d\<rparr>, s)
   \<and> ArrayImpl_dtor ShallowCopyPolicy \<lparr>ptr' = p, dims' = d, size' = calculateSize d\<rparr> s = Inr s"
  by (simp add: ShallowCopyPolicy_destroy_def ShallowCopyPolicy_copy_def ArrayImpl_ctor_def
      ArrayImpl_dtor_def ShallowCopyPolicy_def Array_ctor_def)

theorem alias_destroy_noop_witness:
  "ArrayImpl_ctor ShallowCopyPolicy (Addr 0) [3] [Some [Some (1 :: int), Some 2, Some 3]]
     = Inr (\<lparr>ptr' = Addr 0, dims' = [3], size' = 3\<rparr>, [Some [Some 1, Some 2, Some 3]])
   \<and> ArrayImpl_dtor ShallowCopyPolicy \<lparr>ptr' = Addr 0, dims' = [3], size' = 3\<rparr>
        [Some [Some (1 :: int), Some 2, Some 3]]
     = Inr [Some [Some 1, Some 2, Some 3]]"
  using alias_destroy_noop [of "Addr 0" _ "[Some [Some (1 :: int), Some 2, Some 3]]" "[3]"]
  by (simp add: calculateSize_def)

section \<open>Equality of arrays\<close>

lemma equals_loop_reads:
  assumes "\<forall>j. i \<le> j \<and> j < sz \<longrightarrow> index h p j = Inr (xs ! j) \<and> index h q j = Inr (ys ! j)"
  shows "equals_loop ne h p q sz i = Inr (\<forall>j. i \<le> j \<and> j < sz \<longrightarrow> \<not> ne (xs ! j) (ys ! j))"
  using assms
proof (induction "sz - i" arbitrary: i)
  case 0
  then show ?case
    by (auto simp: equals_loop.simps [of ne h p q sz i])
next
  case (Suc k)
  then have lt: "i < sz" and k: "k = sz - Suc i"
    by simp_all
  have rd: "index h p i = Inr (xs ! i)" "index h q i = Inr (ys ! i)"
    using Suc.prems lt by simp_all
  show ?case
  proof (cases "ne (xs ! i) (ys ! i)")
    case True
    then have "\<not> (\<forall>j. i \<le> j \<and> j < sz \<longrightarrow> \<not> ne (xs ! j) (ys ! j))"
      using lt by auto
    with True lt rd show ?thesis
      by (simp add: equals_loop.simps [of ne h p q sz i])
  next
    case False
    have "equals_loop ne h p q sz (Suc i)
        = Inr (\<forall>j. Suc i \<le> j \<and> j < sz \<longrightarrow> \<not> ne (xs ! j) (ys ! j))"
      using Suc.hyps(1) [OF k] Suc.prems by simp
    moreover have "(\<forall>j. Suc i \<le> j \<and> j < sz \<longrightarrow> \<not> ne (xs ! j) (ys ! j))
        \<longleftrightarrow> (\<forall>j. i \<le> j \<and> j < sz \<longrightarrow> \<not> ne (xs ! j) (ys ! j))"
      using False by (metis Suc_leI le_neq_implies_less Suc_leD)
    ultimately show ?thesis
      using False lt rd by (simp add: equals_loop.simps [of ne h p q sz i])
  qed
qed

text \<open>
  C5.  When the dimension vectors differ, in length or in an entry, \<^verbatim>\<open>operator==\<close>
  returns false without reading memory, so whatever the handles are it does not
  fail.  When the first \<^verbatim>\<open>size_\<close> elements read through the two handles are \<open>xs\<close> and
  \<open>ys\<close>, it returns true exactly if the dimension vectors are equal and no pair of
  corresponding elements is unequal under \<^verbatim>\<open>operator!=\<close> of the element type.  The
  witness compares dimensions [2, 3] with [3, 2] over the same six elements, and
  dimensions [3] over the elements 1 2 3 against 1 2 3 and against 1 2 4.
\<close>

theorem equals_dims_then_elements:
  "((length (dims' a) \<noteq> length (dims' b) \<or> (\<exists>i<length (dims' a). dims' a ! i \<noteq> dims' b ! i))
      \<longrightarrow> Array_equals ne a b h = Inr False)
   \<and> (length xs = unat (size' a) \<and> length ys = unat (size' a)
        \<and> (\<forall>i<unat (size' a). index h (ptr' a) i = Inr (xs ! i) \<and> index h (ptr' b) i = Inr (ys ! i))
      \<longrightarrow> Array_equals ne a b h
            = Inr (dims' a = dims' b \<and> list_all2 (\<lambda>x y. \<not> ne x y) xs ys))"
proof (intro conjI impI)
  assume "length (dims' a) \<noteq> length (dims' b) \<or> (\<exists>i<length (dims' a). dims' a ! i \<noteq> dims' b ! i)"
  then have "dims' a \<noteq> dims' b"
    by auto
  then show "Array_equals ne a b h = Inr False"
    by (simp add: Array_equals_def)
next
  assume r: "length xs = unat (size' a) \<and> length ys = unat (size' a)
        \<and> (\<forall>i<unat (size' a). index h (ptr' a) i = Inr (xs ! i) \<and> index h (ptr' b) i = Inr (ys ! i))"
  then have "equals_loop ne h (ptr' a) (ptr' b) (unat (size' a)) 0
      = Inr (\<forall>j. 0 \<le> j \<and> j < unat (size' a) \<longrightarrow> \<not> ne (xs ! j) (ys ! j))"
    by (intro equals_loop_reads) simp
  moreover have "(\<forall>j. 0 \<le> j \<and> j < unat (size' a) \<longrightarrow> \<not> ne (xs ! j) (ys ! j))
      \<longleftrightarrow> list_all2 (\<lambda>x y. \<not> ne x y) xs ys"
    using r by (simp add: list_all2_conv_all_nth)
  ultimately show "Array_equals ne a b h
      = Inr (dims' a = dims' b \<and> list_all2 (\<lambda>x y. \<not> ne x y) xs ys)"
    by (simp add: Array_equals_def)
qed

theorem equals_dims_then_elements_witness:
  "Array_equals (\<noteq>) \<lparr>ptr' = Addr 0, dims' = [2, 3], size' = 6\<rparr>
       \<lparr>ptr' = Addr 0, dims' = [3, 2], size' = 6\<rparr>
       [Some [Some (1 :: int), Some 2, Some 3, Some 4, Some 5, Some 6]] = Inr False
   \<and> Array_equals (\<noteq>) \<lparr>ptr' = Addr 0, dims' = [3], size' = 3\<rparr>
       \<lparr>ptr' = Addr 1, dims' = [3], size' = 3\<rparr>
       [Some [Some (1 :: int), Some 2, Some 3], Some [Some 1, Some 2, Some 3]] = Inr True
   \<and> Array_equals (\<noteq>) \<lparr>ptr' = Addr 0, dims' = [3], size' = 3\<rparr>
       \<lparr>ptr' = Addr 1, dims' = [3], size' = 3\<rparr>
       [Some [Some (1 :: int), Some 2, Some 3], Some [Some 1, Some 2, Some 4]] = Inr False"
proof -
  let ?a = "\<lparr>ptr' = Addr 0, dims' = [3], size' = 3\<rparr>"
  let ?b = "\<lparr>ptr' = Addr 1, dims' = [3], size' = 3\<rparr>"
  have rd: "\<forall>i<unat (size' ?a).
      index [Some [Some (1 :: int), Some 2, Some 3], Some [Some 1, Some 2, Some z]] (ptr' ?a) i
        = Inr ([1, 2, 3] ! i)
      \<and> index [Some [Some (1 :: int), Some 2, Some 3], Some [Some 1, Some 2, Some z]] (ptr' ?b) i
        = Inr ([1, 2, z] ! i)" for z
  proof -
    have u: "unat (size' ?a) = Suc (Suc (Suc 0))"
      by simp
    show ?thesis
      unfolding u by (auto simp: index_def load_def less_Suc_eq)
  qed
  let ?a6 = "\<lparr>ptr' = Addr 0, dims' = [2, 3], size' = 6\<rparr>"
  let ?b6 = "\<lparr>ptr' = Addr 0, dims' = [3, 2], size' = 6\<rparr>"
  have d: "length (dims' ?a6) \<noteq> length (dims' ?b6)
      \<or> (\<exists>i<length (dims' ?a6). dims' ?a6 ! i \<noteq> dims' ?b6 ! i)"
    by (auto intro: exI [of _ 0])
  have 1: "Array_equals (\<noteq>) ?a6 ?b6
      [Some [Some (1 :: int), Some 2, Some 3, Some 4, Some 5, Some 6]] = Inr False"
    using equals_dims_then_elements [of ?a6 ?b6] d by blast
  have 2: "Array_equals (\<noteq>) ?a ?b
      [Some [Some (1 :: int), Some 2, Some 3], Some [Some 1, Some 2, Some z]]
      = Inr (dims' ?a = dims' ?b \<and> list_all2 (\<lambda>x y. \<not> x \<noteq> y) [1, 2, 3] [1, 2, z])" for z
    using equals_dims_then_elements [of ?a ?b "(\<noteq>)"
        "[Some [Some (1 :: int), Some 2, Some 3], Some [Some 1, Some 2, Some z]]"
        "[1, 2, 3]" "[1, 2, z]"] rd [of z]
    by simp
  show ?thesis
    using 1 2 [of 3] 2 [of 4] by simp
qed

section \<open>The deep-copy policy for text\<close>

lemma strlen_block_take:
  "strlen_block b = Inr n \<Longrightarrow> n < length b \<and> strlen_block (take (Suc n) b @ r) = Inr n"
proof (induction b arbitrary: n rule: strlen_block.induct)
  case (3 c cs)
  then show ?case
    by (auto split: if_splits sum.splits)
qed simp_all

lemma strlen_block_cells:
  "strlen_block b = Inr n \<Longrightarrow>
     b ! n = Some (CHR 0x00) \<and> (\<forall>i<n. \<exists>c. b ! i = Some c \<and> c \<noteq> CHR 0x00)"
proof (induction b arbitrary: n rule: strlen_block.induct)
  case (3 c cs)
  then show ?case
    by (auto split: if_splits sum.splits simp: nth_Cons')
qed simp_all

lemma strcpy_fresh:
  assumes "load h p = Inr sb" and "strlen_block sb = Inr n" and "n < m"
  shows "strcpy (Addr (length h)) p (h @ [Some (replicate m None)])
           = Inr (h @ [Some (take (Suc n) sb @ replicate (m - Suc n) None)])"
  using assms load_old [OF assms(1), of "[Some (replicate m None)]"]
  by (simp add: strcpy_def load_fresh store_def)

lemma CopyPolicy_char_copy_ok:
  assumes "load h p = Inr sb" and "strlen_block sb = Inr n" and "n < unat (sz + 1)"
  shows "CopyPolicy_char_copy p sz h
     = Inr (Addr (length h), h @ [Some (take (Suc n) sb @ replicate (unat (sz + 1) - Suc n) None)])"
  using strcpy_fresh [OF assms] by (simp add: CopyPolicy_char_copy_def new_array_def)

lemma c_str_fresh:
  assumes "strlen_block sb = Inr n" and "a \<noteq> length h"
  shows "c_str ((h @ [Some (take (Suc n) sb @ r)])[a := x]) (Addr (length h))
           = Inr (map the (take (Suc n) sb))"
proof -
  have "n < length sb" "strlen_block (take (Suc n) sb @ r) = Inr n"
    using strlen_block_take [OF assms(1)] by simp_all
  then show ?thesis
    using assms(2) by (simp add: c_str_def load_def nth_list_update)
qed

text \<open>
  C7, as stated, at the text "abc" with the element count 1: \<^verbatim>\<open>CopyPolicy<char>::copy\<close>
  reserves two characters and \<^verbatim>\<open>strcpy\<close> writes four, past the end of the new array.
  And at the empty text with the element count \<open>2\<^sup>6\<^sup>4 - 1\<close>: the count plus one wraps
  around to 0, no character is reserved, and \<^verbatim>\<open>strcpy\<close> writes the terminator past the
  end.
\<close>

theorem short_count_char_counterexample:
  "CopyPolicy_char_copy (Addr 0) 1
     [Some [Some CHR ''a'', Some CHR ''b'', Some CHR ''c'', Some (CHR 0x00)]]
   = Inl WritePastBound
   \<and> CopyPolicy_char_copy (Addr 0) (- 1) [Some [Some (CHR 0x00)]] = Inl WritePastBound"
  by (simp add: CopyPolicy_char_copy_def new_array_def strcpy_def load_def)

lemma unat_Suc_count: "unat (sz :: size_t) < 2 ^ 64 - 1 \<Longrightarrow> unat (sz + 1) = unat sz + 1"
  by (simp add: unat_word_ariths)

text \<open>
  C7, amended.  Let \<open>p\<close> refer to a live array \<open>sb\<close> holding a text of length \<open>n\<close> and its
  terminator, let the text be no longer than the element count \<open>sz\<close>, and let \<open>sz\<close> be
  below \<open>2\<^sup>6\<^sup>4 - 1\<close>, so that \<open>sz + 1\<close> does not wrap around.  Then
  \<^verbatim>\<open>CopyPolicy<char>::copy\<close> returns a new array of \<open>sz + 1\<close> characters: the first
  \<open>n + 1\<close> are those of the source, the terminator last, and the other \<open>sz - n\<close> are
  indeterminate.  The source is as it was; the text read through the new handle is the
  text read through \<open>p\<close>; and it stays so when the array at any other address, that of
  the source included, is overwritten or deleted.
\<close>

theorem text_copy_terminated:
  assumes "load h p = Inr sb" and "strlen_block sb = Inr n"
    and "n \<le> unat sz" and "unat sz < 2 ^ 64 - 1"
  shows "\<exists>c h'. CopyPolicy_char_copy p sz h = Inr (c, h')
           \<and> c \<noteq> p
           \<and> load h' p = Inr sb
           \<and> load h' c = Inr (take (n + 1) sb @ replicate (unat sz - n) None)
           \<and> take (n + 1) sb ! n = Some (CHR 0x00)
           \<and> c_str h' c = c_str h p
           \<and> (\<forall>a x. Addr a \<noteq> c \<longrightarrow> c_str (h'[a := x]) c = c_str h p)"
proof -
  have u: "unat (sz + 1) = unat sz + 1"
    using assms(4) by (rule unat_Suc_count)
  then have fit: "n < unat (sz + 1)"
    using assms(3) by simp
  let ?b = "take (Suc n) sb @ replicate (unat sz - n) None"
  let ?h' = "h @ [Some ?b]"
  have cp: "CopyPolicy_char_copy p sz h = Inr (Addr (length h), ?h')"
    using CopyPolicy_char_copy_ok [OF assms(1,2) fit] by (simp add: u)
  have ne: "Addr (length h) \<noteq> p"
    using assms(1) by (auto simp: load_Inr_iff)
  have src: "c_str h p = Inr (map the (take (Suc n) sb))"
    using assms(1,2) by (simp add: c_str_def)
  have upd: "c_str (?h'[a := x]) (Addr (length h)) = c_str h p" if "a \<noteq> length h" for a x
    using c_str_fresh [OF assms(2) that] src by simp
  have same: "c_str ?h' (Addr (length h)) = c_str h p"
    using upd [of "Suc (length h)"] by (simp add: list_update_beyond)
  have z: "take (Suc n) sb ! n = Some (CHR 0x00)"
    using strlen_block_cells [OF assms(2)] by simp
  show ?thesis
    using cp ne load_old [OF assms(1)] same upd z
    by (intro exI [of _ "Addr (length h)"] exI [of _ ?h']) (simp add: load_fresh)
qed

theorem text_copy_terminated_witness:
  "load [Some (map Some (''abc'' @ [CHR 0x00]))] (Addr 0) = Inr (map Some (''abc'' @ [CHR 0x00]))
   \<and> strlen_block (map Some (''abc'' @ [CHR 0x00])) = Inr 3
   \<and> 3 \<le> unat (3 :: size_t)
   \<and> unat (3 :: size_t) < 2 ^ 64 - 1
   \<and> CopyPolicy_char_copy (Addr 0) 3 [Some (map Some (''abc'' @ [CHR 0x00]))]
       = Inr (Addr 1, [Some (map Some (''abc'' @ [CHR 0x00])), Some (map Some (''abc'' @ [CHR 0x00]))])
   \<and> c_str [Some (map Some (''xyz'' @ [CHR 0x00])), Some (map Some (''abc'' @ [CHR 0x00]))] (Addr 1)
       = Inr (''abc'' @ [CHR 0x00])"
proof -
  let ?sb = "map Some (''abc'' @ [CHR 0x00])"
  have 1: "load [Some ?sb] (Addr 0) = Inr ?sb"
    by (simp add: load_def)
  have 2: "strlen_block ?sb = Inr 3"
    by simp
  have 3: "3 \<le> unat (3 :: size_t)"
    by simp
  have 4: "unat (3 :: size_t) < 2 ^ 64 - 1"
    by simp
  obtain c h' where r: "CopyPolicy_char_copy (Addr 0) 3 [Some ?sb] = Inr (c, h')"
      "\<forall>a x. Addr a \<noteq> c \<longrightarrow> c_str (h'[a := x]) c = c_str [Some ?sb] (Addr 0)"
    using text_copy_terminated [OF 1 2 3 4] by blast
  have e: "CopyPolicy_char_copy (Addr 0) 3 [Some ?sb] = Inr (Addr 1, [Some ?sb, Some ?sb])"
    by (simp add: CopyPolicy_char_copy_def new_array_def strcpy_def load_def store_def)
  with r(1) have ch: "c = Addr 1" "h' = [Some ?sb, Some ?sb]"
    by simp_all
  then have "Addr 0 \<noteq> c"
    by simp
  then have "c_str (h'[0 := Some (map Some (''xyz'' @ [CHR 0x00]))]) c = c_str [Some ?sb] (Addr 0)"
    using r(2) by blast
  moreover have "c_str [Some ?sb] (Addr 0) = Inr (''abc'' @ [CHR 0x00])"
    by (simp add: c_str_def load_def)
  ultimately show ?thesis
    using 1 2 3 4 e ch by simp
qed

section \<open>Null handles and empty arrays\<close>

lemma copy_strings_none: "copy_strings c p 0 0 s = Inr s"
  by (simp add: copy_strings.simps [of c p 0 0 s])

text \<open>
  C6, as stated, at the null handle with count 0: \<^verbatim>\<open>CopyPolicy<char>::copy\<close> hands the
  null pointer to \<^verbatim>\<open>strcpy\<close>, which reads through it.
\<close>

theorem null_source_char_counterexample:
  "CopyPolicy_char_copy Null 0 [] = Inl NullDeref"
  by (simp add: CopyPolicy_char_copy_def new_array_def strcpy_def load_def)

text \<open>
  C6, amended.  With count 0, \<^verbatim>\<open>CopyPolicy<T>::copy\<close> and \<^verbatim>\<open>CopyPolicy<char *>::copy\<close>
  return a new empty array whatever the source handle \<open>p\<close> is, null or dangling, so they
  do not read the source; the copy functions of \<^verbatim>\<open>MovePolicy\<close> (all three),
  \<^verbatim>\<open>MoveStringPolicy\<close> and \<^verbatim>\<open>ShallowCopyPolicy\<close> return the null handle they are
  given; and \<^verbatim>\<open>destroy\<close> of every policy leaves the memory as it is on the null handle,
  for every count.  \<^verbatim>\<open>CopyPolicy<char>::copy\<close> reads its source up to the terminator
  whatever the count: with count 0 it returns a result exactly when the source is a
  live array that starts with the terminator (the empty text).
\<close>

theorem policies_null_zero:
  "CopyPolicy_copy p 0 h = Inr (Addr (length h), h @ [Some []])
   \<and> CopyPolicy_strs_copy p 0 s = Inr (Addr (length (handles s)), s\<lparr>handles := handles s @ [Some []]\<rparr>)
   \<and> MovePolicy_copy Null 0 h = Inr (Null, h)
   \<and> MovePolicy_char_copy Null 0 hc = Inr (Null, hc)
   \<and> MovePolicy_strs_copy Null 0 s = Inr (Null, s)
   \<and> MoveStringPolicy_copy Null 0 h = Inr (Null, h)
   \<and> ShallowCopyPolicy_copy Null 0 st = Inr (Null, st)
   \<and> CopyPolicy_destroy Null sz h = Inr h
   \<and> CopyPolicy_char_destroy Null sz hc = Inr hc
   \<and> CopyPolicy_strs_destroy Null sz s = Inr s
   \<and> MovePolicy_destroy Null sz h = Inr h
   \<and> MovePolicy_char_destroy Null sz hc = Inr hc
   \<and> MovePolicy_strs_destroy Null sz s = Inr s
   \<and> MoveStringPolicy_destroy Null sz h = Inr h
   \<and> ShallowCopyPolicy_destroy Null sz st = Inr st
   \<and> ((\<exists>res. CopyPolicy_char_copy p 0 hc = Inr res) \<longleftrightarrow> (\<exists>r. load hc p = Inr (Some (CHR 0x00) # r)))"
proof -
  have "(\<exists>res. CopyPolicy_char_copy p 0 hc = Inr res) \<longleftrightarrow> (\<exists>r. load hc p = Inr (Some (CHR 0x00) # r))"
  proof
    assume "\<exists>res. CopyPolicy_char_copy p 0 hc = Inr res"
    then obtain sb n where l: "load (hc @ [Some [None]]) p = Inr sb" "strlen_block sb = Inr n" "n = 0"
      by (auto simp: CopyPolicy_char_copy_def new_array_def strcpy_def load_fresh
          split: sum.splits if_splits)
    from l(2,3) obtain r where "sb = Some (CHR 0x00) # r"
      by (cases sb rule: strlen_block.cases) (auto split: if_splits sum.splits)
    moreover have "p \<noteq> Addr (length hc)"
      using l(1) calculation by (auto simp: load_def)
    ultimately show "\<exists>r. load hc p = Inr (Some (CHR 0x00) # r)"
      using l(1) by (auto simp: load_def nth_append split: ptr.splits if_splits option.splits)
  next
    assume "\<exists>r. load hc p = Inr (Some (CHR 0x00) # r)"
    then obtain r where "load hc p = Inr (Some (CHR 0x00) # r)" ..
    from CopyPolicy_char_copy_ok [OF this, of 0 0] show "\<exists>res. CopyPolicy_char_copy p 0 hc = Inr res"
      by simp
  qed
  then show ?thesis
    by (simp add: CopyPolicy_copy_def new_array_def memcpy_def CopyPolicy_strs_copy_def
      copy_strings_none MovePolicy_copy_def MovePolicy_char_copy_def MovePolicy_strs_copy_def
      MoveStringPolicy_copy_def ShallowCopyPolicy_copy_def CopyPolicy_destroy_def
      CopyPolicy_char_destroy_def CopyPolicy_strs_destroy_def MovePolicy_destroy_def
      MovePolicy_char_destroy_def MovePolicy_strs_destroy_def MoveStringPolicy_destroy_def
      ShallowCopyPolicy_destroy_def)
qed

theorem policies_null_zero_witness:
  "CopyPolicy_copy Null 0 ([] :: int heap) = Inr (Addr 0, [Some []])
   \<and> CopyPolicy_strs_copy Null 0 \<lparr>chars = [], handles = []\<rparr>
       = Inr (Addr 0, \<lparr>chars = [], handles = [Some []]\<rparr>)
   \<and> MovePolicy_copy Null 0 ([] :: int heap) = Inr (Null, [])
   \<and> CopyPolicy_destroy Null 0 ([] :: int heap) = Inr []
   \<and> CopyPolicy_char_copy (Addr 0) 0 [Some [Some (CHR 0x00)]]
       = Inr (Addr 1, [Some [Some (CHR 0x00)], Some [Some (CHR 0x00)]])"
proof -
  have "\<exists>r. load [Some [Some (CHR 0x00)]] (Addr 0) = Inr (Some (CHR 0x00) # r)"
    by (simp add: load_def)
  then obtain res where "CopyPolicy_char_copy (Addr 0) 0 [Some [Some (CHR 0x00)]] = Inr res"
    using policies_null_zero [of "Addr 0" _ _ _ "[Some [Some (CHR 0x00)]]"] by blast
  moreover have "CopyPolicy_char_copy (Addr 0) 0 [Some [Some (CHR 0x00)]]
      = Inr (Addr 1, [Some [Some (CHR 0x00)], Some [Some (CHR 0x00)]])"
    by (simp add: CopyPolicy_char_copy_def new_array_def strcpy_def load_def store_def)
  ultimately show ?thesis
    using policies_null_zero [of Null "[] :: int heap" "\<lparr>chars = [], handles = []\<rparr>"
        "[]" "()" 0]
    by simp
qed

section \<open>The owning array\<close>

text \<open>
  C9.  The constructor of \<^verbatim>\<open>ArrayImpl\<close> is the policy's \<^verbatim>\<open>copy\<close> on the source handle
  and \<^verbatim>\<open>calculateSize\<close> of the dimensions, its result stored as \<^verbatim>\<open>ptr_\<close> beside the
  dimensions and the same count; the destructor is the policy's \<^verbatim>\<open>destroy\<close> on the
  stored \<^verbatim>\<open>ptr_\<close> and \<^verbatim>\<open>size_\<close>.  Seen from the policy (the recording policy around any
  policy \<open>pol\<close>, starting with no calls noted), a construction followed by the
  destruction is two calls: one \<^verbatim>\<open>copy\<close> with the source handle and the count of the
  dimensions, which returned the stored handle, then one \<^verbatim>\<open>destroy\<close> with the stored
  handle and that count.
\<close>

theorem owning_array_lifecycle:
  "ArrayImpl_ctor pol src d s
     = (case copy pol src (calculateSize d) s of
          Inl e \<Rightarrow> Inl e
        | Inr (q, s') \<Rightarrow> Inr (\<lparr>ptr' = q, dims' = d, size' = calculateSize d\<rparr>, s'))
   \<and> ArrayImpl_dtor pol a s = destroy pol (ptr' a) (size' a) s
   \<and> (ArrayImpl_ctor (Recording pol) src d (s, []) = Inr (a, st) \<and>
      ArrayImpl_dtor (Recording pol) a st = Inr (s2, log2)
      \<longrightarrow> log2 = [Copy_called src (calculateSize d) (ptr' a),
                  Destroy_called (ptr' a) (calculateSize d)]
          \<and> size' a = calculateSize d \<and> dims' a = d
          \<and> (\<exists>s1. copy pol src (calculateSize d) s = Inr (ptr' a, s1)
                \<and> destroy pol (ptr' a) (calculateSize d) s1 = Inr s2))"
  by (auto simp: ArrayImpl_ctor_def ArrayImpl_dtor_def Recording_def Array_ctor_def
      split: sum.splits prod.splits)

theorem owning_array_lifecycle_witness:
  "ArrayImpl_ctor (Recording CopyPolicy) (Addr 0) [3] ([Some [Some (1 :: int), Some 2, Some 3]], [])
     = Inr (\<lparr>ptr' = Addr 1, dims' = [3], size' = 3\<rparr>,
            [Some [Some 1, Some 2, Some 3], Some [Some 1, Some 2, Some 3]],
            [Copy_called (Addr 0) 3 (Addr 1)])
   \<and> ArrayImpl_dtor (Recording CopyPolicy) \<lparr>ptr' = Addr 1, dims' = [3], size' = 3\<rparr>
       ([Some [Some (1 :: int), Some 2, Some 3], Some [Some 1, Some 2, Some 3]],
        [Copy_called (Addr 0) 3 (Addr 1)])
     = Inr ([Some [Some 1, Some 2, Some 3], None],
            [Copy_called (Addr 0) 3 (Addr 1), Destroy_called (Addr 1) 3])"
proof -
  let ?h = "[Some [Some (1 :: int), Some 2, Some 3]]"
  let ?a = "\<lparr>ptr' = Addr 1, dims' = [3], size' = 3\<rparr>"
  let ?st = "([Some [Some (1 :: int), Some 2, Some 3], Some [Some 1, Some 2, Some 3]],
        [Copy_called (Addr 0) 3 (Addr 1)])"
  have c: "ArrayImpl_ctor (Recording CopyPolicy) (Addr 0) [3] (?h, []) = Inr (?a, ?st)"
    by (simp add: ArrayImpl_ctor_def Recording_def CopyPolicy_def CopyPolicy_copy_def
        new_array_def memcpy_def load_def store_def Array_ctor_def calculateSize_def)
  have d: "ArrayImpl_dtor (Recording CopyPolicy) ?a ?st
      = Inr ([Some [Some 1, Some 2, Some 3], None],
            [Copy_called (Addr 0) 3 (Addr 1), Destroy_called (Addr 1) 3])"
    by (simp add: ArrayImpl_dtor_def Recording_def CopyPolicy_def CopyPolicy_destroy_def
        delete_array_def load_def)
  have "[Copy_called (Addr 0) 3 (Addr 1), Destroy_called (Addr 1) 3]
      = [Copy_called (Addr 0) (calculateSize [3]) (ptr' ?a),
         Destroy_called (ptr' ?a) (calculateSize [3])]"
    using owning_array_lifecycle [of CopyPolicy "Addr 0" "[3]" ?h ?a ?st
        "[Some [Some 1, Some 2, Some 3], None]"
        "[Copy_called (Addr 0) 3 (Addr 1), Destroy_called (Addr 1) 3]"] c d
    by simp
  with c d show ?thesis
    by simp
qed

section \<open>Signature verification\<close>

text \<open>
  C10.  When the digest is empty, the signature is empty or the length of the signature
  is not \<^verbatim>\<open>SIGNATURE_SIZE\<close> (64), \<^verbatim>\<open>PublicKey::verifySignature\<close> returns false and the
  list of calls to \<^verbatim>\<open>RSA_verify\<close> is as before, whatever \<^verbatim>\<open>RSA_verify\<close> would have
  answered.  If a call is added to the list, the digest and the signature are not empty,
  the signature has 64 bytes and \<^verbatim>\<open>impl_\<close> holds an object.  When the input passes the
  guards and \<^verbatim>\<open>impl_\<close> holds the key \<open>k\<close>, \<^verbatim>\<open>RSA_verify\<close> is called once, and the result
  is whether it answered 1.
\<close>

theorem verifySignature_guards:
  "SIGNATURE_SIZE = 64
   \<and> (messageDigest = [] \<or> originalSignature = [] \<or> length originalSignature \<noteq> SIGNATURE_SIZE
        \<longrightarrow> PublicKey_verifySignature RSA_verify this messageDigest originalSignature calls
              = (False, calls))
   \<and> (snd (PublicKey_verifySignature RSA_verify this messageDigest originalSignature calls) \<noteq> calls
        \<longrightarrow> messageDigest \<noteq> [] \<and> originalSignature \<noteq> []
            \<and> length originalSignature = SIGNATURE_SIZE \<and> impl' this \<noteq> None)
   \<and> (messageDigest \<noteq> [] \<and> length originalSignature = SIGNATURE_SIZE \<and> impl' this = Some k
        \<longrightarrow> PublicKey_verifySignature RSA_verify this messageDigest originalSignature calls
              = (RSA_verify (messageDigest, length messageDigest, originalSignature,
                             SIGNATURE_SIZE, k) = 1,
                 calls @ [(messageDigest, length messageDigest, originalSignature,
                           SIGNATURE_SIZE, k)]))"
  by (auto simp: PublicKey_verifySignature_def PublicKeyImpl_verifySignature_def
      SIGNATURE_SIZE_def Let_def split: option.splits)

theorem verifySignature_guards_witness:
  "PublicKey_verifySignature (\<lambda>c. 1) \<lparr>impl' = Some (''10001'', ''C0FFEE'')\<rparr> [1, 2] [] []
     = (False, [])
   \<and> PublicKey_verifySignature (\<lambda>c. 1) \<lparr>impl' = Some (''10001'', ''C0FFEE'')\<rparr> [1, 2]
       (replicate 63 0) [] = (False, [])
   \<and> PublicKey_verifySignature (\<lambda>c. 1) \<lparr>impl' = Some (''10001'', ''C0FFEE'')\<rparr> [1, 2]
       (replicate 64 0) []
     = (True, [([1, 2], 2, replicate 64 0, 64, (''10001'', ''C0FFEE''))])"
  using verifySignature_guards [of "[1, 2]" "[]" "\<lambda>c. 1"
      "\<lparr>impl' = Some (''10001'', ''C0FFEE'')\<rparr>" "[]"]
    verifySignature_guards [of "[1, 2]" "replicate 63 0" "\<lambda>c. 1"
      "\<lparr>impl' = Some (''10001'', ''C0FFEE'')\<rparr>" "[]"]
    verifySignature_guards [of "[1, 2]" "replicate 64 0" "\<lambda>c. 1"
      "\<lparr>impl' = Some (''10001'', ''C0FFEE'')\<rparr>" "[]" "(''10001'', ''C0FFEE'')"]
  by simp

section \<open>The deep-copy policy for arrays of strings\<close>

lemma index_Inr_iff:
  "index h p i = Inr v \<longleftrightarrow> (\<exists>b. load h p = Inr b \<and> i < length b \<and> b ! i = Some v)"
  by (auto simp: index_def split: sum.splits option.splits)

lemma index_old: "index h p i = Inr v \<Longrightarrow> index (h @ bs) p i = Inr v"
  using load_old [of h p _ bs] by (auto simp: index_Inr_iff)

lemma index_fresh:
  "i < length b \<Longrightarrow> b ! i = Some v \<Longrightarrow> index (h @ [Some b]) (Addr (length h)) i = Inr v"
  by (simp add: index_def load_fresh)

lemma assign_fresh:
  "i < length b \<Longrightarrow> assign (Addr (length h)) i v (h @ [Some b]) = Inr (h @ [Some (b[i := Some v])])"
  by (simp add: assign_def load_fresh store_def)

lemma fill_next:
  assumes "i < n"
  shows "(map (\<lambda>j. Some (f j)) [0..<i] @ replicate (n - i) None)[i := Some (f i)]
           = map (\<lambda>j. Some (f j)) [0..<Suc i] @ replicate (n - Suc i) None"
proof -
  have "replicate (n - i) None = (None :: 'a option) # replicate (n - Suc i) None"
    using assms by (cases "n - i") (simp_all add: Suc_diff_Suc)
  then show ?thesis
    by (simp add: list_update_append)
qed

text \<open>
  One round of the copying loop, and the loop from round \<open>i\<close> on: the strings below \<open>i\<close>
  have been copied to new arrays, one after the other, and their addresses fill the
  first \<open>i\<close> cells of the new handle array.
\<close>

lemma copy_string_step:
  assumes "length bs = n" and "length ns = n" and "length qs = n"
    and "\<forall>j<n. index hs0 p j = Inr (qs ! j) \<and> load ch0 (qs ! j) = Inr (bs ! j)
           \<and> strlen_block (bs ! j) = Inr (ns ! j)"
    and "i < n"
  shows "copy_string (Addr (length hs0)) p i
           \<lparr>chars = ch0 @ map (\<lambda>j. Some (take (Suc (ns ! j)) (bs ! j))) [0..<i],
            handles = hs0 @ [Some (map (\<lambda>j. Some (Addr (length ch0 + j))) [0..<i]
                                   @ replicate (n - i) None)]\<rparr>
         = Inr \<lparr>chars = ch0 @ map (\<lambda>j. Some (take (Suc (ns ! j)) (bs ! j))) [0..<Suc i],
                handles = hs0 @ [Some (map (\<lambda>j. Some (Addr (length ch0 + j))) [0..<Suc i]
                                   @ replicate (n - Suc i) None)]\<rparr>"
proof -
  let ?CH = "ch0 @ map (\<lambda>j. Some (take (Suc (ns ! j)) (bs ! j))) [0..<i]"
  let ?blk = "map (\<lambda>j. Some (Addr (length ch0 + j))) [0..<i] @ replicate (n - i) None"
  let ?c = "Addr (length ch0 + i)"
  have rd: "index hs0 p i = Inr (qs ! i)" and ld: "load ch0 (qs ! i) = Inr (bs ! i)"
    and sl: "strlen_block (bs ! i) = Inr (ns ! i)"
    using assms(4,5) by simp_all
  have 1: "index (hs0 @ [Some ?blk]) p i = Inr (qs ! i)"
    using rd by (rule index_old)
  have 2: "strlen ?CH (qs ! i) = Inr (ns ! i)"
    using load_old [OF ld] sl by (simp add: strlen_def)
  have 3: "new_array (ns ! i + 1) ?CH = (?c, ?CH @ [Some (replicate (Suc (ns ! i)) None)])"
    by (simp add: new_array_def)
  have 4: "assign (Addr (length hs0)) i ?c (hs0 @ [Some ?blk])
      = Inr (hs0 @ [Some (map (\<lambda>j. Some (Addr (length ch0 + j))) [0..<Suc i]
                            @ replicate (n - Suc i) None)])"
    using assms(5) fill_next [OF assms(5), of "\<lambda>j. Addr (length ch0 + j)"]
    by (simp add: assign_fresh)
  let ?hs1 = "hs0 @ [Some (map (\<lambda>j. Some (Addr (length ch0 + j))) [0..<Suc i]
                            @ replicate (n - Suc i) None)]"
  have 5: "index ?hs1 (Addr (length hs0)) i = Inr ?c"
    using assms(5) by (intro index_fresh) (simp_all add: nth_append)
  have 6: "index ?hs1 p i = Inr (qs ! i)"
    using rd by (rule index_old)
  have 7: "strcpy ?c (qs ! i) (?CH @ [Some (replicate (Suc (ns ! i)) None)])
      = Inr (?CH @ [Some (take (Suc (ns ! i)) (bs ! i))])"
    using strcpy_fresh [OF load_old [OF ld] sl, of "Suc (ns ! i)"
        "map (\<lambda>j. Some (take (Suc (ns ! j)) (bs ! j))) [0..<i]"]
    by simp
  show ?thesis
    unfolding copy_string_def
    by (simp only: store2.simps 1 2 3 4 5 6 7 sum.case prod.case) simp
qed

lemma copy_strings_run:
  assumes "length bs = n" and "length ns = n" and "length qs = n"
    and "\<forall>j<n. index hs0 p j = Inr (qs ! j) \<and> load ch0 (qs ! j) = Inr (bs ! j)
           \<and> strlen_block (bs ! j) = Inr (ns ! j)"
    and "i \<le> n"
  shows "copy_strings (Addr (length hs0)) p n i
           \<lparr>chars = ch0 @ map (\<lambda>j. Some (take (Suc (ns ! j)) (bs ! j))) [0..<i],
            handles = hs0 @ [Some (map (\<lambda>j. Some (Addr (length ch0 + j))) [0..<i]
                                   @ replicate (n - i) None)]\<rparr>
         = Inr \<lparr>chars = ch0 @ map (\<lambda>j. Some (take (Suc (ns ! j)) (bs ! j))) [0..<n],
                handles = hs0 @ [Some (map (\<lambda>j. Some (Addr (length ch0 + j))) [0..<n])]\<rparr>"
  using assms(5)
proof (induction "n - i" arbitrary: i)
  case 0
  then have "i = n"
    by simp
  then show ?case
    by (simp add: copy_strings.simps [of _ _ n n])
next
  case (Suc k)
  then have lt: "i < n" and k: "k = n - Suc i" and le: "Suc i \<le> n"
    by simp_all
  show ?case
    using lt Suc.hyps(1) [OF k le]
    by (subst copy_strings.simps) (simp only: copy_string_step [OF assms(1-4) lt] if_True sum.case)
qed

lemma CopyPolicy_strs_copy_ok:
  assumes "length bs = unat sz" and "length ns = unat sz" and "length qs = unat sz"
    and "\<forall>j<unat sz. index (handles s) p j = Inr (qs ! j) \<and> load (chars s) (qs ! j) = Inr (bs ! j)
           \<and> strlen_block (bs ! j) = Inr (ns ! j)"
  shows "CopyPolicy_strs_copy p sz (s :: store2)
         = Inr (Addr (length (handles s)),
             \<lparr>chars = chars s @ map (\<lambda>j. Some (take (Suc (ns ! j)) (bs ! j))) [0..<unat sz],
              handles = handles s
                @ [Some (map (\<lambda>j. Some (Addr (length (chars s) + j))) [0..<unat sz])]\<rparr>)"
proof -
  have upd: "s\<lparr>handles := hs\<rparr> = \<lparr>chars = chars s, handles = hs\<rparr>" for hs
    by (cases s) simp
  show ?thesis
    using copy_strings_run [OF assms, of 0]
    by (simp add: CopyPolicy_strs_copy_def new_array_def upd)
qed

lemma free_next:
  assumes "i < n"
  shows "(ch0 @ replicate i None @ map (\<lambda>j. Some (f j)) [i..<n])[length ch0 + i := None]
           = ch0 @ replicate (Suc i) None @ map (\<lambda>j. Some (f j)) [Suc i..<n]"
  using assms by (simp add: list_update_append upt_conv_Cons replicate_append_same)

lemma delete_strings_run:
  assumes "i \<le> n"
  shows "delete_strings (Addr (length hs0)) n i
           \<lparr>chars = ch0 @ replicate i None @ map (\<lambda>j. Some (f j)) [i..<n],
            handles = hs0 @ [Some (map (\<lambda>j. Some (Addr (length ch0 + j))) [0..<n])]\<rparr>
         = Inr \<lparr>chars = ch0 @ replicate n None,
                handles = hs0 @ [Some (map (\<lambda>j. Some (Addr (length ch0 + j))) [0..<n])]\<rparr>"
  using assms
proof (induction "n - i" arbitrary: i)
  case 0
  then have "i = n"
    by simp
  then show ?case
    by (simp add: delete_strings.simps [of _ n n])
next
  case (Suc k)
  then have lt: "i < n" and k: "k = n - Suc i" and le: "Suc i \<le> n"
    by simp_all
  let ?hs = "hs0 @ [Some (map (\<lambda>j. Some (Addr (length ch0 + j))) [0..<n])]"
  let ?ch = "ch0 @ replicate i None @ map (\<lambda>j. Some (f j)) [i..<n]"
  have 1: "index ?hs (Addr (length hs0)) i = Inr (Addr (length ch0 + i))"
    using lt by (intro index_fresh) simp_all
  have 2: "delete_array (Addr (length ch0 + i)) ?ch
      = Inr (ch0 @ replicate (Suc i) None @ map (\<lambda>j. Some (f j)) [Suc i..<n])"
    using lt free_next [OF lt, of ch0 f]
    by (simp add: delete_array_def load_def nth_append)
  show ?case
    using lt Suc.hyps(1) [OF k le]
    by (subst delete_strings.simps) (simp only: store2.simps 1 2 if_True sum.case)
qed

lemma c_str_block:
  assumes "strlen_block b = Inr n" and "a < length H" and "H ! a = Some (take (Suc n) b)"
  shows "c_str H (Addr a) = Inr (map the (take (Suc n) b))"
proof -
  have "n < length b" "strlen_block (take (Suc n) b @ []) = Inr n"
    using strlen_block_take [OF assms(1)] by blast+
  then show ?thesis
    using assms(2,3) by (simp add: c_str_def load_def)
qed

text \<open>
  C8.  Let the first \<open>sz\<close> cells of the source handle array hold the handles \<open>qs\<close>, each
  referring to a live array (\<open>bs\<close>) that holds a terminated text (of length \<open>ns\<close>).
  Then \<^verbatim>\<open>CopyPolicy<char *>::copy\<close> succeeds and returns a new handle array; all arrays
  that existed before, of handles and of characters, are as they were; cell \<open>i\<close> of the
  new handle array refers to a new array of characters of its own, through which the
  text of source string \<open>i\<close> is read, terminator included; that text is still read
  there whatever becomes of all the strings that existed before the copy (\<open>ch\<close> is any
  new state of them, overwritten or deleted), and the new handles are still read
  whatever becomes of the handle arrays that existed before (\<open>hs\<close>).  On the result,
  the loop of \<^verbatim>\<open>CopyPolicy<char *>::destroy\<close> deletes exactly the new strings while the
  handle array is still live, and \<^verbatim>\<open>destroy\<close> then deletes the handle array, leaving
  what existed before the copy; with the handle array deleted first, the loop would read
  a deleted array.
\<close>

theorem strings_copy_independent:
  assumes "length qs = unat sz" and "length bs = unat sz" and "length ns = unat sz"
    and "\<forall>j<unat sz. index (handles s) p j = Inr (qs ! j) \<and> load (chars s) (qs ! j) = Inr (bs ! j)
           \<and> strlen_block (bs ! j) = Inr (ns ! j)"
  shows "\<exists>c s'. CopyPolicy_strs_copy p sz (s :: store2) = Inr (c, s')
     \<and> c = Addr (length (handles s))
     \<and> take (length (handles s)) (handles s') = handles s
     \<and> take (length (chars s)) (chars s') = chars s
     \<and> (\<forall>i<unat sz.
           index (handles s') c i = Inr (Addr (length (chars s) + i))
           \<and> c_str (chars s') (Addr (length (chars s) + i)) = c_str (chars s) (qs ! i)
           \<and> (\<forall>ch. length ch = length (chars s) \<longrightarrow>
                 c_str (ch @ drop (length (chars s)) (chars s')) (Addr (length (chars s) + i))
                   = c_str (chars s) (qs ! i))
           \<and> (\<forall>hs. length hs = length (handles s) \<longrightarrow>
                 index (hs @ drop (length (handles s)) (handles s')) c i
                   = Inr (Addr (length (chars s) + i))))
     \<and> delete_strings c (unat sz) 0 s'
         = Inr (s'\<lparr>chars := chars s @ replicate (unat sz) None\<rparr>)
     \<and> CopyPolicy_strs_destroy c sz s'
         = Inr \<lparr>chars = chars s @ replicate (unat sz) None, handles = handles s @ [None]\<rparr>
     \<and> (0 < unat sz \<longrightarrow>
           delete_strings c (unat sz) 0 (s'\<lparr>handles := handles s @ [None]\<rparr>) = Inl Dangling)"
proof -
  let ?n = "unat sz"
  let ?c = "Addr (length (handles s))"
  let ?f = "\<lambda>j. take (Suc (ns ! j)) (bs ! j)"
  let ?tab = "map (\<lambda>j. Some (Addr (length (chars s) + j))) [0..<?n]"
  let ?ch' = "chars s @ map (\<lambda>j. Some (?f j)) [0..<?n]"
  let ?hs' = "handles s @ [Some ?tab]"
  let ?s' = "\<lparr>chars = ?ch', handles = ?hs'\<rparr>"
  have cp: "CopyPolicy_strs_copy p sz s = Inr (?c, ?s')"
    by (rule CopyPolicy_strs_copy_ok [OF assms(2,3,1,4)])
  have src: "c_str (chars s) (qs ! i) = Inr (map the (?f i))" if "i < ?n" for i
    using assms(4) that by (simp add: c_str_def)
  have str: "c_str (ch @ map (\<lambda>j. Some (?f j)) [0..<?n]) (Addr (length (chars s) + i))
      = c_str (chars s) (qs ! i)"
    if "i < ?n" and "length ch = length (chars s)" for i ch
  proof -
    have "strlen_block (bs ! i) = Inr (ns ! i)"
      using assms(4) that(1) by simp
    moreover have "length (chars s) + i < length (ch @ map (\<lambda>j. Some (?f j)) [0..<?n])"
      using that by simp
    moreover have "(ch @ map (\<lambda>j. Some (?f j)) [0..<?n]) ! (length (chars s) + i) = Some (?f i)"
      using that by (simp add: nth_append)
    ultimately show ?thesis
      using src [OF that(1)] by (simp only: c_str_block)
  qed
  have tab: "index (hs @ [Some ?tab]) ?c i = Inr (Addr (length (chars s) + i))"
    if "i < ?n" and "length hs = length (handles s)" for i hs
    using that index_fresh [of i ?tab "Addr (length (chars s) + i)" hs] by simp
  have del: "delete_strings ?c ?n 0 ?s' = Inr \<lparr>chars = chars s @ replicate ?n None, handles = ?hs'\<rparr>"
    using delete_strings_run [of 0 ?n "handles s" "chars s" ?f] by simp
  have dst: "CopyPolicy_strs_destroy ?c sz ?s'
      = Inr \<lparr>chars = chars s @ replicate ?n None, handles = handles s @ [None]\<rparr>"
    by (simp add: CopyPolicy_strs_destroy_def del delete_array_def load_fresh)
  have bad: "delete_strings ?c ?n 0 (?s'\<lparr>handles := handles s @ [None]\<rparr>) = Inl Dangling"
    if "0 < ?n"
    using that by (subst delete_strings.simps) (simp add: index_def load_def)
  show ?thesis
    using cp str str [of _ "chars s"] tab tab [of _ "handles s"] del dst bad
    by (intro exI [of _ ?c] exI [of _ ?s']) simp
qed

theorem strings_copy_independent_witness:
  "CopyPolicy_strs_copy (Addr 0) 2
     \<lparr>chars = [Some (map Some (''x'' @ [CHR 0x00])), Some (map Some (''yz'' @ [CHR 0x00]))],
      handles = [Some [Some (Addr 0), Some (Addr 1)]]\<rparr>
   = Inr (Addr 1,
       \<lparr>chars = [Some (map Some (''x'' @ [CHR 0x00])), Some (map Some (''yz'' @ [CHR 0x00])),
                 Some (map Some (''x'' @ [CHR 0x00])), Some (map Some (''yz'' @ [CHR 0x00]))],
        handles = [Some [Some (Addr 0), Some (Addr 1)], Some [Some (Addr 2), Some (Addr 3)]]\<rparr>)
   \<and> c_str [None, None, Some (map Some (''x'' @ [CHR 0x00])), Some (map Some (''yz'' @ [CHR 0x00]))]
        (Addr 2) = Inr (''x'' @ [CHR 0x00])
   \<and> c_str [None, None, Some (map Some (''x'' @ [CHR 0x00])), Some (map Some (''yz'' @ [CHR 0x00]))]
        (Addr 3) = Inr (''yz'' @ [CHR 0x00])
   \<and> CopyPolicy_strs_destroy (Addr 1) 2
       \<lparr>chars = [Some (map Some (''x'' @ [CHR 0x00])), Some (map Some (''yz'' @ [CHR 0x00])),
                 Some (map Some (''x'' @ [CHR 0x00])), Some (map Some (''yz'' @ [CHR 0x00]))],
        handles = [Some [Some (Addr 0), Some (Addr 1)], Some [Some (Addr 2), Some (Addr 3)]]\<rparr>
     = Inr \<lparr>chars = [Some (map Some (''x'' @ [CHR 0x00])), Some (map Some (''yz'' @ [CHR 0x00])),
                    None, None],
            handles = [Some [Some (Addr 0), Some (Addr 1)], None]\<rparr>"
proof -
  let ?x = "map Some (''x'' @ [CHR 0x00])"
  let ?yz = "map Some (''yz'' @ [CHR 0x00])"
  let ?s = "\<lparr>chars = [Some ?x, Some ?yz], handles = [Some [Some (Addr 0), Some (Addr 1)]]\<rparr>"
  let ?s' = "\<lparr>chars = [Some ?x, Some ?yz, Some ?x, Some ?yz],
      handles = [Some [Some (Addr 0), Some (Addr 1)], Some [Some (Addr 2), Some (Addr 3)]]\<rparr>"
  have u: "unat (2 :: size_t) = Suc (Suc 0)"
    by simp
  have l: "length [Addr 0, Addr 1] = unat (2 :: size_t)" "length [?x, ?yz] = unat (2 :: size_t)"
      "length [1, 2 :: nat] = unat (2 :: size_t)"
    by simp_all
  have h: "\<forall>j<unat (2 :: size_t). index (handles ?s) (Addr 0) j = Inr ([Addr 0, Addr 1] ! j)
      \<and> load (chars ?s) ([Addr 0, Addr 1] ! j) = Inr ([?x, ?yz] ! j)
      \<and> strlen_block ([?x, ?yz] ! j) = Inr ([1, 2] ! j)"
    unfolding u by (auto simp: index_def load_def less_Suc_eq)
  obtain c s' where r: "CopyPolicy_strs_copy (Addr 0) 2 ?s = Inr (c, s')"
      "\<forall>i<unat (2 :: size_t).
         (\<forall>ch. length ch = length (chars ?s) \<longrightarrow>
            c_str (ch @ drop (length (chars ?s)) (chars s')) (Addr (length (chars ?s) + i))
              = c_str (chars ?s) ([Addr 0, Addr 1] ! i))"
      "CopyPolicy_strs_destroy c 2 s'
         = Inr \<lparr>chars = chars ?s @ replicate (unat (2 :: size_t)) None,
                handles = handles ?s @ [None]\<rparr>"
    using strings_copy_independent [OF l h] by blast
  have e: "CopyPolicy_strs_copy (Addr 0) 2 ?s = Inr (Addr 1, ?s')"
    using CopyPolicy_strs_copy_ok [OF l(2,3,1) h] by (simp add: u upt_rec [of 0] upt_rec [of "Suc 0"])
  with r(1) have cs: "c = Addr 1" "s' = ?s'"
    by simp_all
  have f: "c_str ([None, None] @ drop (length (chars ?s)) (chars s')) (Addr (length (chars ?s) + i))
      = c_str (chars ?s) ([Addr 0, Addr 1] ! i)" if "i < unat (2 :: size_t)" for i
  proof -
    have "length [None, None :: char block option] = length (chars ?s)"
      by simp
    with r(2) that show ?thesis
      by blast
  qed
  have g: "c_str (chars ?s) (Addr 0) = Inr (''x'' @ [CHR 0x00])"
      "c_str (chars ?s) (Addr 1) = Inr (''yz'' @ [CHR 0x00])"
    by (simp_all add: c_str_def load_def)
  have i: "0 < unat (2 :: size_t)" "1 < unat (2 :: size_t)"
    by simp_all
  have f0: "c_str [None, None, Some ?x, Some ?yz] (Addr 2) = Inr (''x'' @ [CHR 0x00])"
    using f [OF i(1)] g(1) unfolding cs by (simp add: numeral_2_eq_2)
  have f1: "c_str [None, None, Some ?x, Some ?yz] (Addr 3) = Inr (''yz'' @ [CHR 0x00])"
    using f [OF i(2)] g(2) unfolding cs by (simp add: numeral_3_eq_3)
  have d: "CopyPolicy_strs_destroy (Addr 1) 2 ?s'
      = Inr \<lparr>chars = [Some ?x, Some ?yz, None, None],
             handles = [Some [Some (Addr 0), Some (Addr 1)], None]\<rparr>"
    using r(3) unfolding cs u by simp
  show ?thesis
    using e f0 f1 d by blast
qed

end
